theory Spec2Isabelle
  imports Main "HOL-Library.Word"
begin

section \<open>The SIPE HTTP transport layer (sipe-http-transport.c)\<close>

text \<open>
  A shallow embedding of \<^verbatim>\<open>src/core/sipe-http-transport.c\<close>.

  \<^item> A \<^verbatim>\<open>char *\<close> into the receive buffer is the list of the bytes from that position
    to \<^verbatim>\<open>buffer + buffer_used\<close>; the byte at \<^verbatim>\<open>buffer[buffer_used]\<close> is the
    terminating NUL, so the end of the list reads as NUL. \<^verbatim>\<open>buffer_used\<close> is the length of
    the list.
  \<^item> \<^verbatim>\<open>struct sipe_http_connection_public\<close> and its \<^verbatim>\<open>conn_private\<close> are allocated and
    freed together; they are one record whose field \<open>cid\<close> is the identity of the
    allocation. A pointer to either is that identity; following a pointer is a lookup
    that fails once the record has been freed.
  \<^item> \<^verbatim>\<open>time(NULL)\<close> is a parameter \<open>now\<close>; \<^verbatim>\<open>time_t\<close> is \<open>int\<close>.
  \<^item> The calls made to the backend and to the request queue are appended to \<open>calls\<close>.
  \<^item> Reads through a freed or null pointer and reads outside the buffer are values of
    type \<open>fault\<close>.
\<close>

subsection \<open>C strings and glib\<close>

type_synonym time_t = int

definition NUL :: char where
  "NUL = CHR 0x00"

definition CR :: char where
  "CR = CHR 0x0D"

definition LF :: char where
  "LF = CHR 0x0A"

definition CRLF :: string where
  "CRLF = [CR, LF]"

text \<open>The C string that starts at a pointer: the bytes before the first NUL.\<close>

definition cstr :: "string \<Rightarrow> string" where
  "cstr p = takeWhile (\<lambda>c. c \<noteq> NUL) p"

definition strlen :: "string \<Rightarrow> nat" where
  "strlen p = length (cstr p)"

fun find_sub :: "string \<Rightarrow> string \<Rightarrow> nat option" where
  "find_sub needle [] = (if needle = [] then Some 0 else None)"
| "find_sub needle (c # cs) =
     (if take (length needle) (c # cs) = needle then Some 0
      else map_option Suc (find_sub needle cs))"

text \<open>\<^verbatim>\<open>strstr(p, needle)\<close>: the offset of the first occurrence, \<open>None\<close> for NULL.\<close>

definition strstr :: "string \<Rightarrow> string \<Rightarrow> nat option" where
  "strstr p needle = find_sub needle (cstr p)"

text \<open>\<^verbatim>\<open>guint\<close> and \<^verbatim>\<open>gint\<close> are 32 bits wide; a conversion keeps the low 32 bits.\<close>

definition guint :: "int \<Rightarrow> nat" where
  "guint x = nat (x mod 2 ^ 32)"

definition gint :: "int \<Rightarrow> int" where
  "gint x = sint (word_of_int x :: 32 word)"

definition g_ascii_tolower :: "char \<Rightarrow> char" where
  "g_ascii_tolower c =
     (let n = of_char c :: nat in if 65 \<le> n \<and> n \<le> 90 then char_of (n + 32) else c)"

definition g_ascii_strdown :: "string \<Rightarrow> string" where
  "g_ascii_strdown s = map g_ascii_tolower s"

text \<open>The \<^verbatim>\<open>%u\<close> conversion of \<^verbatim>\<open>g_strdup_printf\<close>.\<close>

fun printf_u :: "nat \<Rightarrow> string" where
  "printf_u n =
     (if n < 10 then [char_of (48 + n)]
      else printf_u (n div 10) @ [char_of (48 + n mod 10)])"

declare printf_u.simps [simp del]

text \<open>
  \<^verbatim>\<open>g_ascii_strtoll(p, &tmp, 16)\<close>: white space, an optional sign, an optional
  \<^verbatim>\<open>0x\<close>, then hexadecimal digits; the result is the value, saturated to 64 bits, and
  the number of bytes between \<^verbatim>\<open>p\<close> and \<^verbatim>\<open>tmp\<close>. Without a digit the value is 0 and
  \<^verbatim>\<open>tmp\<close> is \<^verbatim>\<open>p\<close> (or points to the \<^verbatim>\<open>x\<close> of a bare \<^verbatim>\<open>0x\<close>).
\<close>

definition g_ascii_isspace :: "char \<Rightarrow> bool" where
  "g_ascii_isspace c = (c \<in> set [CHR '' '', CHR 0x0C, CHR 0x0A, CHR 0x0D, CHR 0x09, CHR 0x0B])"

definition xdigit_value :: "char \<Rightarrow> nat option" where
  "xdigit_value c =
     (let n = of_char c :: nat in
      if 48 \<le> n \<and> n \<le> 57 then Some (n - 48)
      else if 65 \<le> n \<and> n \<le> 70 then Some (n - 55)
      else if 97 \<le> n \<and> n \<le> 102 then Some (n - 87)
      else None)"

definition xdigits_value :: "string \<Rightarrow> nat" where
  "xdigits_value ds = foldl (\<lambda>a c. 16 * a + the (xdigit_value c)) 0 ds"

definition g_ascii_strtoll_16 :: "string \<Rightarrow> int \<times> nat" where
  "g_ascii_strtoll_16 p =
     (let ws = length (takeWhile g_ascii_isspace p);
          s1 = drop ws p;
          neg = (case s1 of [] \<Rightarrow> False | c # _ \<Rightarrow> c = CHR ''-'');
          sg = (case s1 of [] \<Rightarrow> 0 | c # _ \<Rightarrow> if c = CHR ''-'' \<or> c = CHR ''+'' then 1 else 0);
          s2 = drop sg s1;
          px = (case s2 of
                  c # x # _ \<Rightarrow> if c = CHR ''0'' \<and> (x = CHR ''x'' \<or> x = CHR ''X'') then 2 else 0
                | _ \<Rightarrow> 0);
          ds = takeWhile (\<lambda>c. xdigit_value c \<noteq> None) (drop px s2);
          v = int (xdigits_value ds)
      in if ds = [] then (0, if px = 2 then ws + sg + 1 else 0)
         else (if neg then (if v > 2 ^ 63 then - (2 ^ 63) else - v)
               else (if v > 2 ^ 63 - 1 then 2 ^ 63 - 1 else v),
               ws + sg + px + length ds))"

text \<open>
  \<^verbatim>\<open>g_queue_insert_sorted\<close>: the new element goes before the first element that does
  not compare below it. The comparison reads through pointers, so it can fail.
\<close>

fun g_queue_insert_sorted :: "('a \<Rightarrow> 'a \<Rightarrow> int option) \<Rightarrow> 'a list \<Rightarrow> 'a \<Rightarrow> 'a list option" where
  "g_queue_insert_sorted cmp [] d = Some [d]"
| "g_queue_insert_sorted cmp (x # xs) d =
     (case cmp x d of
        None \<Rightarrow> None
      | Some r \<Rightarrow>
          if r < 0 then map_option (Cons x) (g_queue_insert_sorted cmp xs d)
          else Some (d # x # xs))"

subsection \<open>The data model\<close>

datatype fault = Use_after_free | Null_deref | Out_of_bounds

text \<open>\<^verbatim>\<open>struct sipe_transport_connection\<close>: the backend's connection and its buffer.\<close>

record sipe_transport_connection =
  sock :: nat
  buffer :: string

text \<open>\<^verbatim>\<open>struct sipmsg\<close>, the fields the transport reads and writes.\<close>

record sipmsg =
  bodylen :: int
  headers :: "(string \<times> string) list"
  body :: "string option"

text \<open>
  \<^verbatim>\<open>struct sipe_http_connection_public\<close> (\<open>host\<close>, \<open>port\<close>, \<open>connected\<close>) with its
  \<^verbatim>\<open>struct sipe_http_connection_private\<close> (\<open>host_port\<close>, \<open>connection\<close>, \<open>timeout\<close>).
\<close>

record sipe_http_connection =
  cid :: nat
  host :: string
  port :: "32 word"
  connected :: bool
  host_port :: string
  connection :: "sipe_transport_connection option"
  timeout :: time_t

text \<open>
  \<^verbatim>\<open>struct sipe_http\<close>. The hash table's key is the \<open>host_port\<close> string of the entry
  itself, so the table is the list of its entries, looked up by that field. The queue
  holds pointers.
\<close>

record sipe_http =
  connections :: "sipe_http_connection list"
  timeouts :: "nat list"
  next_timeout :: time_t

datatype call =
    Backend_connect nat string "32 word" nat
  | Backend_disconnect nat
  | Request_next nat
  | Request_response nat sipmsg
  | Request_shutdown nat

text \<open>
  \<^verbatim>\<open>struct sipe_core_private\<close>: the \<open>http\<close> field, the timer slot
  \<^verbatim>\<open><+http-timeout>\<close> of the scheduler (payload and delay in seconds), the next
  fresh allocation, and the calls made so far.
\<close>

record sipe_core_private =
  http :: "sipe_http option"
  schedule :: "(nat \<times> int) option"
  fresh :: nat
  calls :: "call list"

definition SIPE_HTTP_DEFAULT_TIMEOUT :: int where
  "SIPE_HTTP_DEFAULT_TIMEOUT = 60"

definition conn_of :: "sipe_http \<Rightarrow> nat \<Rightarrow> sipe_http_connection option" where
  "conn_of h i = find (\<lambda>c. cid c = i) (connections h)"

definition g_hash_table_lookup :: "sipe_http_connection list \<Rightarrow> string \<Rightarrow> sipe_http_connection option" where
  "g_hash_table_lookup tab key = find (\<lambda>c. host_port c = key) tab"

fun steal :: "string \<Rightarrow> sipe_http_connection list \<Rightarrow> sipe_http_connection list" where
  "steal key [] = []"
| "steal key (c # cs) = (if host_port c = key then cs else c # steal key cs)"

definition update_conn ::
  "nat \<Rightarrow> (sipe_http_connection \<Rightarrow> sipe_http_connection) \<Rightarrow> sipe_http \<Rightarrow> sipe_http" where
  "update_conn i f h = h\<lparr>connections := map (\<lambda>c. if cid c = i then f c else c) (connections h)\<rparr>"

subsection \<open>Timeout queue and timer\<close>

definition timeout_compare :: "sipe_http \<Rightarrow> nat \<Rightarrow> nat \<Rightarrow> int option" where
  "timeout_compare h a b =
     (case (conn_of h a, conn_of h b) of
        (Some ca, Some cb) \<Rightarrow> Some (gint (timeout ca - timeout cb))
      | _ \<Rightarrow> None)"

text \<open>\<^verbatim>\<open>sipe_http_transport_free\<close>, the hash table's value destructor.\<close>

definition sipe_http_transport_free ::
  "sipe_http_connection \<Rightarrow> sipe_core_private \<Rightarrow> sipe_core_private" where
  "sipe_http_transport_free c sp =
     sp\<lparr>http := map_option (\<lambda>h. h\<lparr>timeouts := remove1 (cid c) (timeouts h)\<rparr>) (http sp),
        calls := calls sp
          @ (case connection c of None \<Rightarrow> [] | Some t \<Rightarrow> [Backend_disconnect (sock t)])
          @ [Request_shutdown (cid c)]\<rparr>"

text \<open>\<^verbatim>\<open>g_hash_table_remove\<close>: unlink the entry of the key, then run the destructor.\<close>

definition g_hash_table_remove :: "string \<Rightarrow> sipe_core_private \<Rightarrow> sipe_core_private" where
  "g_hash_table_remove key sp =
     (case http sp of
        None \<Rightarrow> sp
      | Some h \<Rightarrow>
          (case g_hash_table_lookup (connections h) key of
             None \<Rightarrow> sp
           | Some c \<Rightarrow>
               sipe_http_transport_free c
                 (sp\<lparr>http := Some (h\<lparr>connections := steal key (connections h)\<rparr>)\<rparr>)))"

definition sipe_http_transport_drop :: "nat \<Rightarrow> sipe_core_private \<Rightarrow> fault + sipe_core_private" where
  "sipe_http_transport_drop i sp =
     (case http sp of
        None \<Rightarrow> Inl Null_deref
      | Some h \<Rightarrow>
          (case conn_of h i of
             None \<Rightarrow> Inl Use_after_free
           | Some c \<Rightarrow> Inr (g_hash_table_remove (host_port c) sp)))"

definition start_timer :: "time_t \<Rightarrow> sipe_core_private \<Rightarrow> fault + sipe_core_private" where
  "start_timer current_time sp =
     (case http sp of
        None \<Rightarrow> Inl Null_deref
      | Some h \<Rightarrow>
          (case timeouts h of
             [] \<Rightarrow> Inl Null_deref
           | i # _ \<Rightarrow>
               (case conn_of h i of
                  None \<Rightarrow> Inl Use_after_free
                | Some c \<Rightarrow>
                    Inr (sp\<lparr>http := Some (h\<lparr>next_timeout := timeout c\<rparr>),
                            schedule := Some (i, timeout c - current_time)\<rparr>))))"

definition pool_size :: "sipe_core_private \<Rightarrow> nat" where
  "pool_size sp = (case http sp of None \<Rightarrow> 0 | Some h \<Rightarrow> length (connections h))"

lemma length_steal:
  "g_hash_table_lookup tab key = Some c \<Longrightarrow> Suc (length (steal key tab)) = length tab"
  by (induction tab) (auto simp: g_hash_table_lookup_def)

lemma pool_size_free [simp]: "pool_size (sipe_http_transport_free c sp) = pool_size sp"
  by (cases "http sp") (simp_all add: pool_size_def sipe_http_transport_free_def)

lemma find_cid_key:
  "find (\<lambda>c. cid c = i) tab = Some c \<Longrightarrow> \<exists>c'. g_hash_table_lookup tab (host_port c) = Some c'"
  by (induction tab) (auto simp: g_hash_table_lookup_def split: if_splits)

lemma pool_size_drop:
  assumes "sipe_http_transport_drop i sp = Inr sp'"
  shows "Suc (pool_size sp') = pool_size sp"
proof -
  obtain h c where h: "http sp = Some h" and c: "conn_of h i = Some c"
    and sp': "sp' = g_hash_table_remove (host_port c) sp"
    using assms by (auto simp: sipe_http_transport_drop_def split: option.splits)
  obtain c' where c': "g_hash_table_lookup (connections h) (host_port c) = Some c'"
    using c find_cid_key by (fastforce simp: conn_of_def)
  have "sp' = sipe_http_transport_free c'
          (sp\<lparr>http := Some (h\<lparr>connections := steal (host_port c) (connections h)\<rparr>)\<rparr>)"
    using sp' h c' by (simp add: g_hash_table_remove_def)
  then have "pool_size sp' =
      pool_size (sp\<lparr>http := Some (h\<lparr>connections := steal (host_port c) (connections h)\<rparr>)\<rparr>)"
    by (simp only: pool_size_free)
  then have "pool_size sp' = length (steal (host_port c) (connections h))"
    by (simp add: pool_size_def)
  then show ?thesis
    using length_steal [OF c'] h by (simp add: pool_size_def)
qed

text \<open>
  The loop of \<^verbatim>\<open>sipe_http_transport_timeout\<close>: drop the connection, look at the head
  of the queue, stop when the queue is empty or the head has not timed out yet.
\<close>

function timeout_loop :: "nat \<Rightarrow> time_t \<Rightarrow> sipe_core_private \<Rightarrow> fault + sipe_core_private" where
  "timeout_loop i current_time sp =
     (case sipe_http_transport_drop i sp of
        Inl e \<Rightarrow> Inl e
      | Inr sp' \<Rightarrow>
          (case http sp' of
             None \<Rightarrow> Inl Null_deref
           | Some h \<Rightarrow>
               (case timeouts h of
                  [] \<Rightarrow> Inr sp'
                | j # _ \<Rightarrow>
                    (case conn_of h j of
                       None \<Rightarrow> Inl Use_after_free
                     | Some c \<Rightarrow>
                         if timeout c > current_time then start_timer current_time sp'
                         else timeout_loop j current_time sp'))))"
  by pat_completeness auto
termination
  by (relation "measure (\<lambda>(i, t, sp). pool_size sp)") (auto dest: pool_size_drop)

declare timeout_loop.simps [simp del]

definition sipe_http_transport_timeout ::
  "nat \<Rightarrow> time_t \<Rightarrow> sipe_core_private \<Rightarrow> fault + sipe_core_private" where
  "sipe_http_transport_timeout data current_time sp =
     (case http sp of
        None \<Rightarrow> Inl Null_deref
      | Some h \<Rightarrow> timeout_loop data current_time (sp\<lparr>http := Some (h\<lparr>next_timeout := 0\<rparr>)\<rparr>))"

text \<open>
  Modelled from the spec: the timer collaborator (sipe-schedule.c is not part of the
  sources): a single named timer slot; when it fires the slot is emptied and the
  callback runs on the payload.
\<close>

definition timer_fire :: "time_t \<Rightarrow> sipe_core_private \<Rightarrow> fault + sipe_core_private" where
  "timer_fire current_time sp =
     (case schedule sp of
        None \<Rightarrow> Inr sp
      | Some (payload, delay) \<Rightarrow>
          sipe_http_transport_timeout payload current_time (sp\<lparr>schedule := None\<rparr>))"

subsection \<open>Lifecycle of the transport state\<close>

definition sipe_http_free :: "sipe_core_private \<Rightarrow> sipe_core_private" where
  "sipe_http_free sp =
     (case http sp of
        None \<Rightarrow> sp
      | Some h \<Rightarrow>
          (fold sipe_http_transport_free (connections h)
             (sp\<lparr>schedule := None, http := Some (h\<lparr>connections := []\<rparr>)\<rparr>))
          \<lparr>http := None\<rparr>)"

definition sipe_http_init :: "sipe_core_private \<Rightarrow> sipe_core_private" where
  "sipe_http_init sp =
     (case http sp of
        Some h \<Rightarrow> sp
      | None \<Rightarrow> sp\<lparr>http := Some \<lparr>connections = [], timeouts = [], next_timeout = 0\<rparr>\<rparr>)"

definition sipe_http_transport_connected :: "nat \<Rightarrow> sipe_core_private \<Rightarrow> fault + sipe_core_private" where
  "sipe_http_transport_connected i sp =
     (case http sp of
        None \<Rightarrow> Inl Null_deref
      | Some h \<Rightarrow>
          (case conn_of h i of
             None \<Rightarrow> Inl Use_after_free
           | Some c \<Rightarrow>
               Inr (sp\<lparr>http := Some (update_conn i (\<lambda>c. c\<lparr>connected := True\<rparr>) h),
                       calls := calls sp @ [Request_next i]\<rparr>)))"

definition sipe_http_transport_error :: "nat \<Rightarrow> sipe_core_private \<Rightarrow> fault + sipe_core_private" where
  "sipe_http_transport_error i sp = sipe_http_transport_drop i sp"

text \<open>
  Modelled from the spec: \<^verbatim>\<open>sipe_http_connection_new\<close> (sipe-http-request.c is not
  part of the sources) allocates the public part of a Connection Entry for the host and
  port it is given, not yet connected.
\<close>

definition sipe_http_connection_new :: "nat \<Rightarrow> string \<Rightarrow> 32 word \<Rightarrow> sipe_http_connection" where
  "sipe_http_connection_new i h p =
     \<lparr>cid = i, host = h, port = p, connected = False,
      host_port = [], connection = None, timeout = 0\<rparr>"

text \<open>
  The second half of \<^verbatim>\<open>sipe_http_transport_new\<close> (lines 405-430): connect when the
  entry has no backend connection.
\<close>

definition establish ::
  "nat \<Rightarrow> string \<Rightarrow> 32 word \<Rightarrow> time_t \<Rightarrow> sipe_core_private \<Rightarrow> fault + sipe_core_private" where
  "establish i hst prt current_time sp =
     (case http sp of
        None \<Rightarrow> Inl Null_deref
      | Some h \<Rightarrow>
          (case conn_of h i of
             None \<Rightarrow> Inl Use_after_free
           | Some c \<Rightarrow>
               if connection c \<noteq> None then Inr sp
               else
                 let h1 = update_conn i
                       (\<lambda>c. c\<lparr>connected := False,
                              connection := Some \<lparr>sock = fresh sp, buffer = []\<rparr>,
                              timeout := current_time + SIPE_HTTP_DEFAULT_TIMEOUT\<rparr>) h
                 in (case g_queue_insert_sorted (timeout_compare h1) (timeouts h1) i of
                       None \<Rightarrow> Inl Use_after_free
                     | Some q \<Rightarrow>
                         let sp1 = sp\<lparr>http := Some (h1\<lparr>timeouts := q\<rparr>),
                                      fresh := Suc (fresh sp),
                                      calls := calls sp @ [Backend_connect i hst prt (fresh sp)]\<rparr>
                         in if next_timeout h1 = 0 then start_timer current_time sp1
                            else Inr sp1)))"

definition sipe_http_transport_new ::
  "string \<Rightarrow> 32 word \<Rightarrow> time_t \<Rightarrow> sipe_core_private \<Rightarrow> fault + (nat \<times> sipe_core_private)" where
  "sipe_http_transport_new host_in prt current_time sp0 =
     (let hst = g_ascii_strdown host_in;
          hp = hst @ '':'' @ printf_u (unat prt);
          sp = sipe_http_init sp0
      in case http sp of
           None \<Rightarrow> Inl Null_deref
         | Some h \<Rightarrow>
             (case g_hash_table_lookup (connections h) hp of
                Some c \<Rightarrow>
                  let h1 = (if connection c = None
                            then h\<lparr>timeouts := remove1 (cid c) (timeouts h)\<rparr> else h)
                  in map_sum id (Pair (cid c))
                       (establish (cid c) hst prt current_time (sp\<lparr>http := Some h1\<rparr>))
              | None \<Rightarrow>
                  let c = (sipe_http_connection_new (fresh sp) hst prt)\<lparr>host_port := hp\<rparr>;
                      h1 = h\<lparr>connections := connections h @ [c]\<rparr>
                  in map_sum id (Pair (cid c))
                       (establish (cid c) hst prt current_time
                          (sp\<lparr>http := Some h1, fresh := Suc (fresh sp)\<rparr>))))"

subsection \<open>Receiving: \<^verbatim>\<open>sipe_http_transport_input\<close>\<close>

text \<open>
  The collaborators of \<^verbatim>\<open>sipmsg.h\<close>, which is not part of the sources: the header
  parser, a parameter of the model (\<open>None\<close> is its NULL), and the value that marks a
  chunked body in \<open>bodylen\<close>.
\<close>

record collaborators =
  sipmsg_parse_header :: "string \<Rightarrow> sipmsg option"
  SIPMSG_BODYLEN_CHUNKED :: int

text \<open>
  Modelled from the spec: \<^verbatim>\<open>sipmsg_find_header\<close> and \<^verbatim>\<open>sipe_strcase_equal\<close> (sipmsg.c
  and sipe-utils.c are not part of the sources): the value of the first header of that
  name, and equality of two strings up to letter case, false when one of them is NULL.
\<close>

definition sipmsg_find_header :: "sipmsg \<Rightarrow> string \<Rightarrow> string option" where
  "sipmsg_find_header msg name =
     map_option snd (find (\<lambda>(n, v). g_ascii_strdown n = g_ascii_strdown name) (headers msg))"

definition sipe_strcase_equal :: "string option \<Rightarrow> string option \<Rightarrow> bool" where
  "sipe_strcase_equal a b =
     (case (a, b) of
        (Some x, Some y) \<Rightarrow> g_ascii_strdown x = g_ascii_strdown y
      | (None, None) \<Rightarrow> True
      | _ \<Rightarrow> False)"

text \<open>
  One pass through the body of the chunk loop (lines 222-281), from \<^verbatim>\<open>start\<close> and the
  length accumulated so far: a \<^verbatim>\<open>break\<close> before the body is complete, a read outside
  the buffer, the zero-size chunk (accumulated length and the position after it), or a
  completed chunk (accumulated length, its payload, the next \<^verbatim>\<open>start\<close>).
\<close>

datatype chunk_step =
    Chunk_break
  | Chunk_fault fault
  | Chunk_last int string
  | Chunk_next int string string

definition chunk_iteration :: "string \<Rightarrow> int \<Rightarrow> chunk_step" where
  "chunk_iteration start len_so_far =
     (let vn = g_ascii_strtoll_16 start;
          len = guint (fst vn);
          n = snd vn
      in if len = 0 \<and> n = 0 then Chunk_break
         else
           let blen = gint (len_so_far + int len) in
           (case strstr (drop n start) CRLF of
              None \<Rightarrow> Chunk_break
            | Some k \<Rightarrow>
                let tmp = drop (n + k + 2) start;
                    remainder = guint (int (length tmp))
                in if remainder < guint (int len + 2) then Chunk_break
                   else if length tmp < len + 2 then Chunk_fault Out_of_bounds
                   else if len = 0 then Chunk_last blen (drop 2 tmp)
                   else Chunk_next blen (take len tmp) (drop (len + 2) tmp)))"

lemma chunk_iteration_next_shorter:
  "chunk_iteration start b = Chunk_next b' c start' \<Longrightarrow> start \<noteq> [] \<Longrightarrow>
     length start' < length start"
  by (auto simp: chunk_iteration_def Let_def split: if_splits option.splits)

text \<open>
  The chunk loop (lines 221-282) and the assembly of the body (lines 250-275). The
  result is \<open>None\<close> when \<^verbatim>\<open>incomplete\<close> is still TRUE after the loop, else the body, the
  final \<^verbatim>\<open>msg->bodylen\<close> and the unread rest of the buffer. The body is copied into
  \<^verbatim>\<open>bodylen + 1\<close> bytes; a copy that does not fit is a fault.
\<close>

function chunk_loop ::
  "string \<Rightarrow> int \<Rightarrow> string list \<Rightarrow> fault + (string \<times> int \<times> string) option" where
  "chunk_loop start len_so_far chunks =
     (if strlen start = 0 then Inr None
      else
        (case chunk_iteration start len_so_far of
           Chunk_break \<Rightarrow> Inr None
         | Chunk_fault e \<Rightarrow> Inl e
         | Chunk_last blen rest \<Rightarrow>
             if blen \<noteq> int (length (concat chunks)) then Inl Out_of_bounds
             else Inr (Some (concat chunks, blen, rest))
         | Chunk_next blen c start' \<Rightarrow> chunk_loop start' blen (chunks @ [c])))"
  by pat_completeness auto
termination
  by (relation "measure (\<lambda>(start, b, cs). length start)")
     (auto simp: strlen_def cstr_def dest: chunk_iteration_next_shorter)

declare chunk_loop.simps [simp del]

text \<open>
  The Framer: lines 192-324 of \<^verbatim>\<open>sipe_http_transport_input\<close>, on the buffer alone.
  Each result carries the buffer the function leaves behind: \<open>Incomplete\<close> when no
  header terminator was found or the body is not complete, \<open>Malformed\<close> when the header
  parser returned NULL, \<open>Complete\<close> with the message and the shrunk buffer.
\<close>

datatype framed =
    Incomplete string
  | Malformed string
  | Complete sipmsg string

definition frame :: "collaborators \<Rightarrow> string \<Rightarrow> fault + framed" where
  "frame env buffer0 =
     (let buf = dropWhile (\<lambda>c. c = CR \<or> c = LF) buffer0 in
      case strstr buf (CRLF @ CRLF) of
        None \<Rightarrow> Inr (Incomplete buf)
      | Some i \<Rightarrow>
          let current = i + 2;
              buf1 = buf[current := NUL]
          in (case sipmsg_parse_header env (cstr buf1) of
                None \<Rightarrow> Inr (Malformed (buf1[current := CR]))
              | Some msg \<Rightarrow>
                  if bodylen msg = SIPMSG_BODYLEN_CHUNKED env then
                    (case chunk_loop (drop (current + 2) buf1) 0 [] of
                       Inl e \<Rightarrow> Inl e
                     | Inr None \<Rightarrow> Inr (Incomplete (buf1[current := CR]))
                     | Inr (Some (b, n, rest)) \<Rightarrow>
                         Inr (Complete (msg\<lparr>bodylen := n, body := Some b\<rparr>) rest))
                  else
                    let remainder = guint (int (length buf1) - int (current + 2)) in
                    if remainder \<ge> guint (bodylen msg) then
                      (if bodylen msg < 0 \<or> length buf1 - (current + 2) < nat (bodylen msg)
                       then Inl Out_of_bounds
                       else Inr (Complete
                              (msg\<lparr>body := Some (take (nat (bodylen msg)) (drop (current + 2) buf1))\<rparr>)
                              (drop (current + 2 + nat (bodylen msg)) buf1)))
                    else Inr (Incomplete (buf1[current := CR]))))"

definition set_buffer :: "nat \<Rightarrow> string \<Rightarrow> sipe_http \<Rightarrow> sipe_http" where
  "set_buffer i b h =
     update_conn i (\<lambda>c. c\<lparr>connection := map_option (\<lambda>t. t\<lparr>buffer := b\<rparr>) (connection c)\<rparr>) h"

text \<open>
  \<^verbatim>\<open>sipe_http_transport_input\<close> for the connection whose \<^verbatim>\<open>user_data\<close> is the entry
  \<open>i\<close>. \<open>pending\<close> is what \<^verbatim>\<open>sipe_http_request_pending\<close> answers after the response
  has been delivered.
\<close>

definition sipe_http_transport_input ::
  "collaborators \<Rightarrow> time_t \<Rightarrow> bool \<Rightarrow> nat \<Rightarrow> sipe_core_private \<Rightarrow> fault + sipe_core_private" where
  "sipe_http_transport_input env current_time pending i sp =
     (case http sp of
        None \<Rightarrow> Inl Null_deref
      | Some h \<Rightarrow>
          (case conn_of h i of
             None \<Rightarrow> Inl Use_after_free
           | Some c \<Rightarrow>
               (case connection c of
                  None \<Rightarrow> Inl Null_deref
                | Some t \<Rightarrow>
                    (case frame env (buffer t) of
                       Inl e \<Rightarrow> Inl e
                     | Inr (Incomplete b) \<Rightarrow> Inr (sp\<lparr>http := Some (set_buffer i b h)\<rparr>)
                     | Inr (Malformed b) \<Rightarrow> Inr (sp\<lparr>http := Some (set_buffer i b h)\<rparr>)
                     | Inr (Complete msg rest) \<Rightarrow>
                         let sp1 = sp\<lparr>http := Some (set_buffer i rest h),
                                      calls := calls sp @ [Request_response i msg]\<rparr>
                         in if sipe_strcase_equal (sipmsg_find_header msg ''Connection'') (Some ''close'')
                            then
                              let sp2 = sp1\<lparr>http := Some (update_conn i
                                              (\<lambda>c. c\<lparr>connection := None, connected := False\<rparr>)
                                              (set_buffer i rest h)),
                                            calls := calls sp1 @ [Backend_disconnect (sock t)]\<rparr>
                              in if pending
                                 then map_sum id snd
                                        (sipe_http_transport_new (host c) (port c) current_time sp2)
                                 else Inr sp2
                            else if pending
                              then Inr (sp1\<lparr>calls := calls sp1 @ [Request_next i]\<rparr>)
                              else Inr sp1))))"

text \<open>
  Modelled from the spec: the backend's data event (the backend is not part of the
  sources): the buffer grows in place by the bytes read, then the input callback runs.
  \<open>backend_read\<close> is the first half.
\<close>

definition backend_read :: "nat \<Rightarrow> string \<Rightarrow> sipe_core_private \<Rightarrow> sipe_core_private" where
  "backend_read i bytes sp =
     sp\<lparr>http := map_option
       (update_conn i (\<lambda>c. c\<lparr>connection :=
          map_option (\<lambda>t. t\<lparr>buffer := buffer t @ bytes\<rparr>) (connection c)\<rparr>)) (http sp)\<rparr>"

subsection \<open>A header parser to run the model on concrete buffers\<close>

text \<open>
  Modelled from the spec: the header-parsing collaborator (sipmsg.c is not part of the
  sources), a black box that turns the header block into a message structure. This
  instance splits the block into lines, takes the first line as the status line (three
  parts separated by spaces, or the parse fails), every other line as \<open>name: value\<close>
  (or the parse fails), and sets \<open>bodylen\<close> from \<open>Content-Length\<close>, to the chunked mark
  for \<open>Transfer-Encoding: chunked\<close>, and to 0 when neither is declared. It is used for
  concrete inputs only; the theorems hold for every parser.
\<close>

fun split_crlf :: "string \<Rightarrow> string \<Rightarrow> string list" where
  "split_crlf acc [] = [rev acc]"
| "split_crlf acc [c] = [rev (c # acc)]"
| "split_crlf acc (c # d # cs) =
     (if c = CR \<and> d = LF then rev acc # split_crlf [] cs
      else split_crlf (c # acc) (d # cs))"

definition parse_line :: "string \<Rightarrow> (string \<times> string) option" where
  "parse_line l =
     (if CHR '':'' \<in> set l
      then Some (takeWhile (\<lambda>c. c \<noteq> CHR '':'') l,
                 dropWhile (\<lambda>c. c = CHR '' '') (drop 1 (dropWhile (\<lambda>c. c \<noteq> CHR '':'') l)))
      else None)"

definition decimal_value :: "string \<Rightarrow> int" where
  "decimal_value v =
     int (foldl (\<lambda>a c. 10 * a + (of_char c - 48)) 0
            (takeWhile (\<lambda>c. 48 \<le> (of_char c :: nat) \<and> (of_char c :: nat) \<le> 57) v))"

definition example_parse_header :: "string \<Rightarrow> sipmsg option" where
  "example_parse_header hdr =
     (case filter (\<lambda>l. l \<noteq> []) (split_crlf [] hdr) of
        [] \<Rightarrow> None
      | status # ls \<Rightarrow>
          if length (filter (\<lambda>c. c = CHR '' '') status) < 2
             \<or> list_ex (\<lambda>l. parse_line l = None) ls
          then None
          else
            let hs = map (\<lambda>l. the (parse_line l)) ls;
                m = \<lparr>bodylen = 0, headers = hs, body = None\<rparr>
            in (case sipmsg_find_header m ''Content-Length'' of
                  Some v \<Rightarrow> Some (m\<lparr>bodylen := decimal_value v\<rparr>)
                | None \<Rightarrow>
                    if sipe_strcase_equal (sipmsg_find_header m ''Transfer-Encoding'') (Some ''chunked'')
                    then Some (m\<lparr>bodylen := - 1\<rparr>)
                    else Some m))"

definition example_env :: collaborators where
  "example_env = \<lparr>sipmsg_parse_header = example_parse_header, SIPMSG_BODYLEN_CHUNKED = - 1\<rparr>"

subsection \<open>Well-formed transport states\<close>

text \<open>
  The states the C program can be in: allocations are distinct and older than the next
  fresh one, the hash table has one entry per key, the key of an entry is the key
  \<^verbatim>\<open>sipe_http_transport_new\<close> computes from its host and port, and the queue holds
  live entries, each at most once.
\<close>

definition key_of :: "string \<Rightarrow> 32 word \<Rightarrow> string" where
  "key_of hst prt = g_ascii_strdown hst @ '':'' @ printf_u (unat prt)"

definition wf_http :: "nat \<Rightarrow> sipe_http \<Rightarrow> bool" where
  "wf_http fr h =
     (distinct (map cid (connections h)) \<and>
      distinct (map host_port (connections h)) \<and>
      distinct (timeouts h) \<and>
      set (timeouts h) \<subseteq> set (map cid (connections h)) \<and>
      list_all (\<lambda>c. cid c < fr \<and> host_port c = key_of (host c) (port c)) (connections h))"

definition wf :: "sipe_core_private \<Rightarrow> bool" where
  "wf sp = (case http sp of None \<Rightarrow> True | Some h \<Rightarrow> wf_http (fresh sp) h)"

definition sp_init :: sipe_core_private where
  "sp_init = \<lparr>http = None, schedule = None, fresh = 0, calls = []\<rparr>"

subsection \<open>Host names that differ only in letter case\<close>

text \<open>
  The relation of the specification, independent of \<^verbatim>\<open>g_ascii_strdown\<close>: two host
  strings of the same length whose bytes are equal position by position or are the upper
  and the lower case of the same ASCII letter.
\<close>

definition ascii_letters :: "(char \<times> char) list" where
  "ascii_letters = zip ''ABCDEFGHIJKLMNOPQRSTUVWXYZ'' ''abcdefghijklmnopqrstuvwxyz''"

definition same_letter :: "char \<Rightarrow> char \<Rightarrow> bool" where
  "same_letter a b = (a = b \<or> (a, b) \<in> set ascii_letters \<or> (b, a) \<in> set ascii_letters)"

definition differ_only_in_case :: "string \<Rightarrow> string \<Rightarrow> bool" where
  "differ_only_in_case h1 h2 = list_all2 same_letter h1 h2"

text \<open>The entry after a connect at time \<open>current_time\<close> on the backend connection \<open>s\<close>.\<close>

definition fresh_connection :: "nat \<Rightarrow> time_t \<Rightarrow> sipe_http_connection \<Rightarrow> sipe_http_connection" where
  "fresh_connection s current_time c =
     c\<lparr>connected := False, connection := Some \<lparr>sock = s, buffer = []\<rparr>,
       timeout := current_time + SIPE_HTTP_DEFAULT_TIMEOUT\<rparr>"

subsection \<open>Eviction, described\<close>

text \<open>
  The deadline of the entry a queue element points to; the calls its teardown makes
  (\<^verbatim>\<open>sipe_http_transport_free\<close>); the entries one run of the timeout handler evicts
  (its payload, then the heads of the remaining queue whose deadline has passed); and the
  state with a list of entries evicted and a given queue left.
\<close>

definition deadline :: "sipe_http \<Rightarrow> nat \<Rightarrow> time_t" where
  "deadline h i = (case conn_of h i of None \<Rightarrow> 0 | Some c \<Rightarrow> timeout c)"

definition teardown_calls :: "sipe_http \<Rightarrow> nat \<Rightarrow> call list" where
  "teardown_calls h i =
     (case conn_of h i of
        None \<Rightarrow> []
      | Some c \<Rightarrow>
          (case connection c of None \<Rightarrow> [] | Some t \<Rightarrow> [Backend_disconnect (sock t)])
          @ [Request_shutdown i])"

definition evicted :: "sipe_http \<Rightarrow> nat \<Rightarrow> time_t \<Rightarrow> nat list" where
  "evicted h i current_time =
     i # takeWhile (\<lambda>j. deadline h j \<le> current_time) (remove1 i (timeouts h))"


subsection \<open>Responses delivered and the close directive\<close>

text \<open>The responses handed to the request queue, in order, among the calls made.\<close>

fun responses :: "call list \<Rightarrow> (nat \<times> sipmsg) list" where
  "responses [] = []"
| "responses (Request_response i m # cs) = (i, m) # responses cs"
| "responses (_ # cs) = responses cs"

text \<open>The test of line 329, and what lines 334-336 do to the entry.\<close>

definition close_requested :: "sipmsg \<Rightarrow> bool" where
  "close_requested msg =
     sipe_strcase_equal (sipmsg_find_header msg ''Connection'') (Some ''close'')"

definition closed_connection :: "sipe_http_connection \<Rightarrow> sipe_http_connection" where
  "closed_connection c = c\<lparr>connection := None, connected := False\<rparr>"

subsection \<open>Example states and messages\<close>

text \<open>
  The state after a request for \<open>a:443\<close> at time 0, and after a further request for
  \<open>b:443\<close> at time 10; three responses as the backend reads them.
\<close>

definition after_a :: sipe_core_private where
  "after_a = (case sipe_http_transport_new ''a'' 443 0 sp_init of
                Inr (i, sp) \<Rightarrow> sp | Inl e \<Rightarrow> sp_init)"

definition after_a_b :: sipe_core_private where
  "after_a_b = (case sipe_http_transport_new ''b'' 443 10 after_a of
                  Inr (i, sp) \<Rightarrow> sp | Inl e \<Rightarrow> sp_init)"

definition first_response :: string where
  "first_response = ''HTTP/1.1 200 OK'' @ CRLF @ ''Content-Length: 5'' @ CRLF @ CRLF @ ''hello''"

definition second_response :: string where
  "second_response = ''HTTP/1.1 204 No Content'' @ CRLF @ CRLF"

definition close_response :: string where
  "close_response = ''HTTP/1.1 200 OK'' @ CRLF @ ''Connection: close'' @ CRLF @ CRLF"

section \<open>Running the model on concrete inputs\<close>

lemmas state_eval =
  sipe_http_transport_new_def sipe_http_init_def sp_init_def establish_def
  g_hash_table_lookup_def conn_of_def update_conn_def timeout_compare_def start_timer_def
  sipe_http_connection_new_def g_ascii_strdown_def g_ascii_tolower_def char_of_def bit_0
  printf_u.simps SIPE_HTTP_DEFAULT_TIMEOUT_def gint_def Let_def
  sipe_http_transport_error_def sipe_http_transport_drop_def g_hash_table_remove_def
  sipe_http_transport_free_def timer_fire_def sipe_http_transport_timeout_def
  timeout_loop.simps

lemmas frame_eval =
  frame_def strstr_def cstr_def strlen_def CRLF_def CR_def LF_def NUL_def
  example_env_def example_parse_header_def parse_line_def decimal_value_def
  sipmsg_find_header_def sipe_strcase_equal_def
  chunk_loop.simps chunk_iteration_def g_ascii_strtoll_16_def g_ascii_isspace_def
  xdigit_value_def xdigits_value_def guint_def
  sipe_http_transport_input_def backend_read_def set_buffer_def close_response_def

lemmas example_eval = after_a_def after_a_b_def first_response_def second_response_def
  wf_def wf_http_def key_of_def

lemmas example_eval2 = example_eval deadline_def evicted_def teardown_calls_def
  close_requested_def

section \<open>Well-formed states and connection requests\<close>

lemma same_letter_tolower: "same_letter a b \<Longrightarrow> g_ascii_tolower a = g_ascii_tolower b"
  unfolding same_letter_def ascii_letters_def
  by (auto simp: g_ascii_tolower_def char_of_def bit_0)

lemma differ_only_in_case_strdown:
  "differ_only_in_case h1 h2 \<Longrightarrow> g_ascii_strdown h1 = g_ascii_strdown h2"
  unfolding differ_only_in_case_def g_ascii_strdown_def
  by (induction h1 h2 rule: list_all2_induct) (auto dest: same_letter_tolower)

lemma tolower_idem: "g_ascii_tolower (g_ascii_tolower c) = g_ascii_tolower c"
  by (auto simp: g_ascii_tolower_def Let_def)

lemma strdown_idem: "g_ascii_strdown (g_ascii_strdown s) = g_ascii_strdown s"
  by (simp add: g_ascii_strdown_def tolower_idem)

lemma find_by_Some: "find (\<lambda>x. f x = k) xs = Some y \<Longrightarrow> y \<in> set xs \<and> f y = k"
  by (induction xs) (auto split: if_splits)

lemma find_by_None: "find (\<lambda>x. f x = k) xs = None \<longleftrightarrow> k \<notin> f ` set xs"
  by (induction xs) auto

lemma find_by_distinct:
  "distinct (map f xs) \<Longrightarrow> y \<in> set xs \<Longrightarrow> find (\<lambda>x. f x = f y) xs = Some y"
  by (induction xs) auto



lemma insert_sorted_total:
  "\<forall>x \<in> set xs. cmp x d \<noteq> None \<Longrightarrow>
   \<exists>q. g_queue_insert_sorted cmp xs d = Some q \<and> set q = insert d (set xs) \<and>
       (distinct xs \<longrightarrow> d \<notin> set xs \<longrightarrow> distinct q)"
  by (induction xs) (auto split: option.splits)

lemma conn_of_None_iff: "conn_of h i = None \<longleftrightarrow> i \<notin> cid ` set (connections h)"
  unfolding conn_of_def by (rule find_by_None)

lemma map_field_update:
  "(\<And>c. f (g c) = f c) \<Longrightarrow> map f (map (\<lambda>c. if P c then g c else c) xs) = map f xs"
  by (induction xs) auto

lemma cids_update_conn:
  "(\<And>c. cid (g c) = cid c) \<Longrightarrow> map cid (connections (update_conn i g h)) = map cid (connections h)"
  by (simp add: update_conn_def map_field_update)

lemma keys_update_conn:
  "(\<And>c. host_port (g c) = host_port c) \<Longrightarrow>
   map host_port (connections (update_conn i g h)) = map host_port (connections h)"
  by (simp add: update_conn_def map_field_update)

lemma timeouts_update_conn [simp]: "timeouts (update_conn i g h) = timeouts h"
  by (simp add: update_conn_def)

lemma next_timeout_update_conn [simp]: "next_timeout (update_conn i g h) = next_timeout h"
  by (simp add: update_conn_def)

lemma wf_http_update_conn:
  assumes "wf_http fr h" "\<And>c. cid (g c) = cid c" "\<And>c. host_port (g c) = host_port c"
    "\<And>c. host (g c) = host c" "\<And>c. port (g c) = port c"
  shows "wf_http fr (update_conn i g h)"
proof -
  have "list_all (\<lambda>c. cid c < fr \<and> host_port c = key_of (host c) (port c))
          (connections (update_conn i g h))"
    using assms by (auto simp: wf_http_def update_conn_def list_all_iff)
  then show ?thesis
    using assms by (simp add: wf_http_def cids_update_conn keys_update_conn)
qed

lemma wf_http_mono: "wf_http fr h \<Longrightarrow> fr \<le> fr' \<Longrightarrow> wf_http fr' h"
  by (auto simp: wf_http_def list_all_iff)

lemma establish_live:
  "http sp = Some h \<Longrightarrow> conn_of h i = Some c \<Longrightarrow> connection c \<noteq> None \<Longrightarrow>
   establish i hst prt now sp = Inr sp"
  by (simp add: establish_def)

lemma establish_wf:
  assumes wf: "wf sp" and h: "http sp = Some h" and c: "conn_of h i = Some c"
    and dead: "connection c = None" and notq: "i \<notin> set (timeouts h)"
  shows "\<exists>sp1 h1. establish i hst prt now sp = Inr sp1 \<and> wf sp1 \<and> http sp1 = Some h1 \<and>
           connections h1 = connections (update_conn i (fresh_connection (fresh sp) now) h) \<and>
           set (timeouts h1) = insert i (set (timeouts h)) \<and>
           fresh sp1 = Suc (fresh sp) \<and>
           calls sp1 = calls sp @ [Backend_connect i hst prt (fresh sp)]"
proof -
  define g where "g = fresh_connection (fresh sp) now"
  define h1 where "h1 = update_conn i g h"
  have g: "\<And>c. cid (g c) = cid c" "\<And>c. host_port (g c) = host_port c"
    "\<And>c. host (g c) = host c" "\<And>c. port (g c) = port c"
    by (simp_all add: g_def fresh_connection_def)
  have wfh: "wf_http (fresh sp) h" using wf h by (simp add: wf_def)
  have wfh1: "wf_http (fresh sp) h1" unfolding h1_def by (rule wf_http_update_conn [OF wfh g])
  have cids: "cid ` set (connections h1) = cid ` set (connections h)"
  proof -
    have "set (map cid (connections h1)) = set (map cid (connections h))"
      using cids_update_conn [of g i h, OF g(1)] unfolding h1_def by simp
    then show ?thesis by simp
  qed
  have iin: "i \<in> cid ` set (connections h)"
    using c conn_of_None_iff [of h i] by auto
  have sub: "set (timeouts h) \<subseteq> cid ` set (connections h)"
    using wfh by (simp add: wf_http_def)
  have cmp: "\<forall>x \<in> set (timeouts h1). timeout_compare h1 x i \<noteq> None"
  proof
    fix x assume "x \<in> set (timeouts h1)"
    then have "x \<in> cid ` set (connections h1)" using sub cids by (auto simp: h1_def)
    then have "conn_of h1 x \<noteq> None" "conn_of h1 i \<noteq> None"
      using iin cids by (simp_all add: conn_of_None_iff)
    then show "timeout_compare h1 x i \<noteq> None"
      by (auto simp: timeout_compare_def)
  qed
  obtain q where q: "g_queue_insert_sorted (timeout_compare h1) (timeouts h1) i = Some q"
    and setq: "set q = insert i (set (timeouts h1))"
    and dq: "distinct (timeouts h1) \<longrightarrow> i \<notin> set (timeouts h1) \<longrightarrow> distinct q"
  proof -
    have "\<exists>q. g_queue_insert_sorted (timeout_compare h1) (timeouts h1) i = Some q \<and>
        set q = insert i (set (timeouts h1)) \<and>
        (distinct (timeouts h1) \<longrightarrow> i \<notin> set (timeouts h1) \<longrightarrow> distinct q)"
      using cmp by (rule insert_sorted_total)
    then show ?thesis using that by (elim exE conjE)
  qed
  define sp1 where "sp1 = sp\<lparr>http := Some (h1\<lparr>timeouts := q\<rparr>), fresh := Suc (fresh sp),
                                calls := calls sp @ [Backend_connect i hst prt (fresh sp)]\<rparr>"
  have est: "establish i hst prt now sp =
      (if next_timeout h1 = 0 then start_timer now sp1 else Inr sp1)"
    using h c dead q unfolding establish_def h1_def g_def fresh_connection_def sp1_def
    by (simp add: Let_def)
  have wfq: "wf_http (Suc (fresh sp)) (h1\<lparr>timeouts := q\<rparr>)"
  proof -
    have "wf_http (Suc (fresh sp)) h1" using wf_http_mono [OF wfh1, of "Suc (fresh sp)"] by simp
    moreover have "distinct q" using dq notq wfh1 by (simp add: wf_http_def h1_def)
    moreover have "set q \<subseteq> cid ` set (connections h1)"
      using setq sub iin cids by (auto simp: h1_def)
    ultimately show ?thesis by (simp add: wf_http_def)
  qed
  have wf1: "wf sp1" using wfq by (simp add: wf_def sp1_def)
  have qne: "q \<noteq> []" using setq by auto
  then obtain j q' where jq: "q = j # q'" by (cases q) auto
  then have "j \<in> cid ` set (connections h1)"
    using setq sub cids iin by (auto simp: h1_def)
  then obtain cj where cj: "conn_of (h1\<lparr>timeouts := q\<rparr>) j = Some cj"
    using conn_of_None_iff [of "h1\<lparr>timeouts := q\<rparr>" j] by auto
  have st: "start_timer now sp1 =
      Inr (sp1\<lparr>http := Some (h1\<lparr>timeouts := q, next_timeout := timeout cj\<rparr>),
              schedule := Some (j, timeout cj - now)\<rparr>)"
    using jq cj by (simp add: start_timer_def sp1_def)
  show ?thesis
  proof (cases "next_timeout h1 = 0")
    case True
    have "wf (sp1\<lparr>http := Some (h1\<lparr>timeouts := q, next_timeout := timeout cj\<rparr>),
              schedule := Some (j, timeout cj - now)\<rparr>)"
      using wfq by (simp add: wf_def wf_http_def sp1_def)
    then show ?thesis
      using est st True setq by (simp add: sp1_def h1_def g_def)
  next
    case False
    then show ?thesis
      using est wf1 setq by (simp add: sp1_def h1_def g_def)
  qed
qed

lemma find_map_update:
  "(\<And>c. f (g c) = f c) \<Longrightarrow>
   find (\<lambda>c. f c = k) (map (\<lambda>c. if P c then g c else c) xs) =
   map_option (\<lambda>c. if P c then g c else c) (find (\<lambda>c. f c = k) xs)"
  by (induction xs) auto

lemma lookup_update_conn:
  "(\<And>c. host_port (g c) = host_port c) \<Longrightarrow>
   g_hash_table_lookup (connections (update_conn i g h)) k =
   map_option (\<lambda>c. if cid c = i then g c else c) (g_hash_table_lookup (connections h) k)"
  unfolding g_hash_table_lookup_def update_conn_def
  using find_map_update [of host_port g k "\<lambda>c. cid c = i" "connections h"] by simp

lemma conn_of_distinct:
  "distinct (map cid (connections h)) \<Longrightarrow> c \<in> set (connections h) \<Longrightarrow> conn_of h (cid c) = Some c"
  unfolding conn_of_def by (rule find_by_distinct)

lemma lookup_Some:
  "g_hash_table_lookup tab k = Some c \<Longrightarrow> c \<in> set tab \<and> host_port c = k"
  unfolding g_hash_table_lookup_def by (rule find_by_Some)

lemma lookup_None: "g_hash_table_lookup tab k = None \<longleftrightarrow> k \<notin> host_port ` set tab"
  unfolding g_hash_table_lookup_def by (rule find_by_None)

lemma find_append_new:
  "k \<notin> f ` set xs \<Longrightarrow> f y = k \<Longrightarrow> find (\<lambda>x. f x = k) (xs @ [y]) = Some y"
  by (induction xs) auto

lemma wf_init: "wf sp \<Longrightarrow> wf (sipe_http_init sp)"
  by (auto simp: wf_def sipe_http_init_def wf_http_def split: option.splits)

lemma new_live:
  assumes "wf sp" "http sp = Some h" "g_hash_table_lookup (connections h) (key_of host_in prt) = Some c"
    "connection c \<noteq> None"
  shows "sipe_http_transport_new host_in prt now sp = Inr (cid c, sp)"
proof -
  have init: "sipe_http_init sp = sp" using assms(2) by (simp add: sipe_http_init_def)
  have "c \<in> set (connections h)" using lookup_Some [OF assms(3)] by simp
  moreover have "distinct (map cid (connections h))"
    using assms(1,2) by (simp add: wf_def wf_http_def)
  ultimately have c: "conn_of h (cid c) = Some c" by (simp add: conn_of_distinct)
  have sp: "sp\<lparr>http := Some h\<rparr> = sp" using assms(2) by (cases sp) simp
  have est: "establish (cid c) (g_ascii_strdown host_in) prt now sp = Inr sp"
    using establish_live [OF assms(2) c assms(4)] .
  have "sipe_http_transport_new host_in prt now sp =
      map_sum id (Pair (cid c))
        (establish (cid c) (g_ascii_strdown host_in) prt now (sp\<lparr>http := Some h\<rparr>))"
    using assms(2,3,4) init
    by (auto simp: sipe_http_transport_new_def Let_def key_of_def)
  also have "\<dots> = Inr (cid c, sp)"
    by (simp only: sp est) simp
  finally show ?thesis .
qed

lemma wf_http_timeouts:
  "wf_http fr h \<Longrightarrow> distinct q \<Longrightarrow> set q \<subseteq> set (timeouts h) \<Longrightarrow>
   wf_http fr (h\<lparr>timeouts := q\<rparr>)"
  by (simp add: wf_http_def) blast

lemma new_unfold:
  assumes h: "http sp = Some h"
  shows "sipe_http_transport_new host_in prt now sp =
    (case g_hash_table_lookup (connections h) (key_of host_in prt) of
       Some c \<Rightarrow>
         map_sum id (Pair (cid c))
           (establish (cid c) (g_ascii_strdown host_in) prt now
              (sp\<lparr>http := Some (if connection c = None
                                  then h\<lparr>timeouts := remove1 (cid c) (timeouts h)\<rparr> else h)\<rparr>))
     | None \<Rightarrow>
         map_sum id (Pair (fresh sp))
           (establish (fresh sp) (g_ascii_strdown host_in) prt now
              (sp\<lparr>http := Some (h\<lparr>connections := connections h @
                   [(sipe_http_connection_new (fresh sp) (g_ascii_strdown host_in) prt)
                      \<lparr>host_port := key_of host_in prt\<rparr>]\<rparr>),
                   fresh := Suc (fresh sp)\<rparr>)))"
proof -
  have "sipe_http_init sp = sp" using h by (simp add: sipe_http_init_def)
  then show ?thesis
    using h unfolding sipe_http_transport_new_def
    by (simp add: Let_def key_of_def sipe_http_connection_new_def split: option.splits)
qed

lemma new_reconnect:
  assumes wf: "wf sp" and h: "http sp = Some h"
    and look: "g_hash_table_lookup (connections h) (key_of host_in prt) = Some c"
    and dead: "connection c = None"
  shows "\<exists>sp1 h1. sipe_http_transport_new host_in prt now sp = Inr (cid c, sp1) \<and> wf sp1 \<and>
           http sp1 = Some h1 \<and>
           connections h1 = connections (update_conn (cid c) (fresh_connection (fresh sp) now) h) \<and>
           set (timeouts h1) = insert (cid c) (set (timeouts h)) \<and>
           fresh sp1 = Suc (fresh sp) \<and>
           calls sp1 = calls sp @ [Backend_connect (cid c) (g_ascii_strdown host_in) prt (fresh sp)]"
proof -
  define h' where "h' = h\<lparr>timeouts := remove1 (cid c) (timeouts h)\<rparr>"
  define sp' where "sp' = sp\<lparr>http := Some h'\<rparr>"
  have wfh: "wf_http (fresh sp) h" using wf h by (simp add: wf_def)
  have cin: "c \<in> set (connections h)" using lookup_Some [OF look] by simp
  have "wf_http (fresh sp) h'"
    unfolding h'_def using wfh
    by (intro wf_http_timeouts) (auto simp: wf_http_def dest: notin_set_remove1)
  then have wf': "wf sp'" by (simp add: sp'_def wf_def)
  have h': "http sp' = Some h'" by (simp add: sp'_def)
  have "conn_of h (cid c) = Some c"
    using conn_of_distinct [of h c] wfh cin by (simp add: wf_http_def)
  then have c': "conn_of h' (cid c) = Some c" by (simp add: h'_def conn_of_def)
  have notq: "cid c \<notin> set (timeouts h')"
    using wfh by (simp add: h'_def wf_http_def)
  obtain sp1 h1 where est: "establish (cid c) (g_ascii_strdown host_in) prt now sp' = Inr sp1"
    and rest: "wf sp1" "http sp1 = Some h1"
      "connections h1 = connections (update_conn (cid c) (fresh_connection (fresh sp') now) h')"
      "set (timeouts h1) = insert (cid c) (set (timeouts h'))"
      "fresh sp1 = Suc (fresh sp')"
      "calls sp1 = calls sp' @ [Backend_connect (cid c) (g_ascii_strdown host_in) prt (fresh sp')]"
    using establish_wf [OF wf' h' c' dead notq, of "g_ascii_strdown host_in" prt now] by blast
  have "sipe_http_transport_new host_in prt now sp = Inr (cid c, sp1)"
    using new_unfold [OF h, of host_in prt now] look dead est by (simp add: sp'_def h'_def)
  moreover have "connections (update_conn (cid c) (fresh_connection (fresh sp') now) h') =
      connections (update_conn (cid c) (fresh_connection (fresh sp) now) h)"
    by (simp add: sp'_def h'_def update_conn_def)
  moreover have "insert (cid c) (set (timeouts h')) = insert (cid c) (set (timeouts h))"
    using wfh by (auto simp: h'_def wf_http_def)
  ultimately show ?thesis
    using rest by (intro exI [of _ sp1] exI [of _ h1]) (simp add: sp'_def)
qed

lemma new_fresh:
  assumes wf: "wf sp" and h: "http sp = Some h"
    and look: "g_hash_table_lookup (connections h) (key_of host_in prt) = None"
  shows "\<exists>sp1 h1. sipe_http_transport_new host_in prt now sp = Inr (fresh sp, sp1) \<and> wf sp1 \<and>
           http sp1 = Some h1 \<and>
           connections h1 = connections h @
             [fresh_connection (Suc (fresh sp)) now
                ((sipe_http_connection_new (fresh sp) (g_ascii_strdown host_in) prt)
                   \<lparr>host_port := key_of host_in prt\<rparr>)] \<and>
           calls sp1 = calls sp @
             [Backend_connect (fresh sp) (g_ascii_strdown host_in) prt (Suc (fresh sp))]"
proof -
  define hst where "hst = g_ascii_strdown host_in"
  define hp where "hp = key_of host_in prt"
  define c where "c = (sipe_http_connection_new (fresh sp) hst prt)\<lparr>host_port := hp\<rparr>"
  define h' where "h' = h\<lparr>connections := connections h @ [c]\<rparr>"
  define sp' where "sp' = sp\<lparr>http := Some h', fresh := Suc (fresh sp)\<rparr>"
  have wfh: "wf_http (fresh sp) h" using wf h by (simp add: wf_def)
  have cfields: "cid c = fresh sp" "host_port c = hp" "connection c = None"
    "host c = hst" "port c = prt"
    by (simp_all add: c_def sipe_http_connection_new_def)
  have keyc: "host_port c = key_of (host c) (port c)"
    by (simp add: cfields hp_def hst_def key_of_def strdown_idem)
  have lt: "\<forall>x \<in> set (connections h). cid x < fresh sp"
    using wfh by (simp add: wf_http_def list_all_iff)
  then have fresh_notin: "fresh sp \<notin> cid ` set (connections h)" by auto
  have key_notin: "hp \<notin> host_port ` set (connections h)"
    using look by (simp add: lookup_None hp_def)
  have "list_all (\<lambda>c. cid c < Suc (fresh sp) \<and> host_port c = key_of (host c) (port c))
          (connections h @ [c])"
    using wfh keyc cfields(1) lt by (auto simp: wf_http_def list_all_iff)
  moreover have "set (timeouts h) \<subseteq> cid ` set (connections h)"
    using wfh by (simp add: wf_http_def)
  ultimately have "wf_http (Suc (fresh sp)) h'"
    using wfh fresh_notin key_notin cfields(1,2)
    by (simp add: h'_def wf_http_def) blast
  then have wf': "wf sp'" by (simp add: sp'_def wf_def)
  have h': "http sp' = Some h'" by (simp add: sp'_def)
  have c': "conn_of h' (cid c) = Some c"
    unfolding conn_of_def h'_def using fresh_notin cfields(1)
    by (simp add: find_append_new)
  have notq: "cid c \<notin> set (timeouts h')"
    using wfh fresh_notin cfields(1) by (auto simp: h'_def wf_http_def)
  obtain sp1 h1 where est: "establish (cid c) hst prt now sp' = Inr sp1"
    and rest: "wf sp1" "http sp1 = Some h1"
      "connections h1 = connections (update_conn (cid c) (fresh_connection (fresh sp') now) h')"
      "calls sp1 = calls sp' @ [Backend_connect (cid c) hst prt (fresh sp')]"
    using establish_wf [OF wf' h' c' cfields(3) notq, of hst prt now] by blast
  have "sipe_http_transport_new host_in prt now sp = Inr (fresh sp, sp1)"
    using new_unfold [OF h, of host_in prt now] look est [unfolded cfields(1)]
    by (simp add: sp'_def h'_def c_def hst_def hp_def)
  moreover have "connections (update_conn (cid c) (fresh_connection (fresh sp') now) h') =
      connections h @ [fresh_connection (Suc (fresh sp)) now c]"
  proof -
    have "map (\<lambda>x. if cid x = fresh sp then fresh_connection (Suc (fresh sp)) now x else x)
            (connections h) = connections h"
      using lt by (intro map_idI) auto
    then show ?thesis
      using cfields(1) by (simp add: update_conn_def h'_def sp'_def)
  qed
  ultimately show ?thesis
    using rest cfields(1)
    by (intro exI [of _ sp1] exI [of _ h1]) (simp add: sp'_def c_def hst_def hp_def)
qed

lemma new_init:
  "sipe_http_transport_new host_in prt now (sipe_http_init sp) =
   sipe_http_transport_new host_in prt now sp"
  by (simp add: sipe_http_transport_new_def sipe_http_init_def split: option.splits)

lemma new_wf:
  assumes wf: "wf sp"
  shows "\<exists>sp1 h1 c1. sipe_http_transport_new host_in prt now sp = Inr (cid c1, sp1) \<and> wf sp1 \<and>
           http sp1 = Some h1 \<and>
           g_hash_table_lookup (connections h1) (key_of host_in prt) = Some c1 \<and>
           connection c1 \<noteq> None"
proof -
  define sp0 where "sp0 = sipe_http_init sp"
  have wf0: "wf sp0" using wf by (simp add: sp0_def wf_init)
  obtain h where h: "http sp0 = Some h"
    by (cases "http sp") (auto simp: sp0_def sipe_http_init_def)
  have new0: "sipe_http_transport_new host_in prt now sp =
      sipe_http_transport_new host_in prt now sp0"
    by (simp add: sp0_def new_init)
  have g: "\<And>s c. host_port (fresh_connection s now c) = host_port c"
    by (simp add: fresh_connection_def)
  show ?thesis
  proof (cases "g_hash_table_lookup (connections h) (key_of host_in prt)")
    case None
    obtain sp1 h1 where r: "sipe_http_transport_new host_in prt now sp0 = Inr (fresh sp0, sp1)"
      "wf sp1" "http sp1 = Some h1"
      "connections h1 = connections h @
         [fresh_connection (Suc (fresh sp0)) now
            ((sipe_http_connection_new (fresh sp0) (g_ascii_strdown host_in) prt)
               \<lparr>host_port := key_of host_in prt\<rparr>)]"
      using new_fresh [OF wf0 h None, of now] by blast
    define c1 where "c1 = fresh_connection (Suc (fresh sp0)) now
            ((sipe_http_connection_new (fresh sp0) (g_ascii_strdown host_in) prt)
               \<lparr>host_port := key_of host_in prt\<rparr>)"
    have c1: "cid c1 = fresh sp0" "host_port c1 = key_of host_in prt" "connection c1 \<noteq> None"
      by (simp_all add: c1_def fresh_connection_def sipe_http_connection_new_def)
    have "key_of host_in prt \<notin> host_port ` set (connections h)"
      using None by (simp add: lookup_None)
    then have "g_hash_table_lookup (connections h1) (key_of host_in prt) = Some c1"
      unfolding g_hash_table_lookup_def r(4) c1_def [symmetric]
      using c1(2) by (rule find_append_new)
    then show ?thesis
      using r(1,2,3) c1 new0 by (intro exI [of _ sp1] exI [of _ h1] exI [of _ c1]) simp
  next
    case (Some c)
    show ?thesis
    proof (cases "connection c = None")
      case False
      have "sipe_http_transport_new host_in prt now sp0 = Inr (cid c, sp0)"
        using new_live [OF wf0 h Some False] .
      then show ?thesis
        using wf0 h Some False new0 by (intro exI [of _ sp0] exI [of _ h] exI [of _ c]) simp
    next
      case True
      obtain sp1 h1 where r: "sipe_http_transport_new host_in prt now sp0 = Inr (cid c, sp1)"
        "wf sp1" "http sp1 = Some h1"
        "connections h1 = connections (update_conn (cid c) (fresh_connection (fresh sp0) now) h)"
        using new_reconnect [OF wf0 h Some True, of now] by blast
      define c1 where "c1 = fresh_connection (fresh sp0) now c"
      have c1: "cid c1 = cid c" "connection c1 \<noteq> None"
        by (simp_all add: c1_def fresh_connection_def)
      have "g_hash_table_lookup (connections h1) (key_of host_in prt) = Some c1"
        using Some by (simp add: r(4) lookup_update_conn [OF g] c1_def)
      then show ?thesis
        using r(1,2,3) c1 new0 by (intro exI [of _ sp1] exI [of _ h1] exI [of _ c1]) simp
    qed
  qed
qed

lemma filter_key_distinct:
  "distinct (map f xs) \<Longrightarrow> y \<in> set xs \<Longrightarrow> filter (\<lambda>x. f x = f y) xs = [y]"
proof (induction xs)
  case Nil
  then show ?case by simp
next
  case (Cons x xs)
  show ?case
  proof (cases "x = y")
    case True
    have "f y \<notin> f ` set xs" using Cons.prems True by simp
    then have "\<forall>x \<in> set xs. f x \<noteq> f y" by (metis imageI)
    then have "filter (\<lambda>x. f x = f y) xs = []" by (simp add: filter_empty_conv)
    then show ?thesis using True by simp
  next
    case False
    then have "y \<in> set xs" using Cons.prems by simp
    moreover have "f x \<noteq> f y" using Cons.prems False \<open>y \<in> set xs\<close> by auto
    ultimately show ?thesis using Cons by simp
  qed
qed

lemma wf_sp_init: "wf sp_init"
  by (simp add: wf_def sp_init_def)

section \<open>The pool is keyed by the lower-cased host\<close>

text \<open>
  C1. From a well-formed state, a request for \<open>host1\<close> and a following request for a
  \<open>host2\<close> that differs from it only in ASCII letter case, on the same port, return the
  same entry; the second request leaves the state as it is, and the pool holds exactly
  one entry under the key of either destination.
\<close>

theorem host_case_same_entry:
  assumes "wf sp" and "differ_only_in_case host1 host2"
  shows "\<exists>c sp1 h1.
           sipe_http_transport_new host1 prt t1 sp = Inr (cid c, sp1) \<and>
           sipe_http_transport_new host2 prt t2 sp1 = Inr (cid c, sp1) \<and>
           http sp1 = Some h1 \<and>
           filter (\<lambda>x. host_port x = key_of host1 prt) (connections h1) = [c] \<and>
           filter (\<lambda>x. host_port x = key_of host2 prt) (connections h1) = [c]"
proof -
  obtain sp1 h1 c where r: "sipe_http_transport_new host1 prt t1 sp = Inr (cid c, sp1)"
    "wf sp1" "http sp1 = Some h1"
    "g_hash_table_lookup (connections h1) (key_of host1 prt) = Some c" "connection c \<noteq> None"
    using new_wf [OF assms(1), of host1 prt t1] by blast
  have key: "key_of host2 prt = key_of host1 prt"
    using differ_only_in_case_strdown [OF assms(2)] by (simp add: key_of_def)
  have second: "sipe_http_transport_new host2 prt t2 sp1 = Inr (cid c, sp1)"
    using new_live [OF r(2,3) _ r(5), of host2 prt t2] r(4) key by simp
  have "c \<in> set (connections h1)" "host_port c = key_of host1 prt"
    using lookup_Some [OF r(4)] by simp_all
  moreover have "distinct (map host_port (connections h1))"
    using r(2,3) by (simp add: wf_def wf_http_def)
  ultimately have "filter (\<lambda>x. host_port x = key_of host1 prt) (connections h1) = [c]"
    using filter_key_distinct [of host_port "connections h1" c] by simp
  then show ?thesis
    using r(1,3) second key by (intro exI [of _ c] exI [of _ sp1] exI [of _ h1]) simp
qed

theorem host_case_same_entry_witness:
  "wf sp_init \<and> differ_only_in_case ''EXAMPLE.com'' ''example.COM'' \<and>
   (\<exists>sp1. sipe_http_transport_new ''EXAMPLE.com'' 443 0 sp_init = Inr (0, sp1) \<and>
          sipe_http_transport_new ''example.COM'' 443 5 sp1 = Inr (0, sp1) \<and>
          pool_size sp1 = 1)"
proof -
  have d: "differ_only_in_case ''EXAMPLE.com'' ''example.COM''"
    by (simp add: differ_only_in_case_def same_letter_def ascii_letters_def)
  show ?thesis
    using host_case_same_entry [OF wf_sp_init d, of 443 0 5] d wf_sp_init
    by (simp add: state_eval pool_size_def)
qed

section \<open>Eviction by the timer\<close>















section \<open>Delivering responses\<close>

lemma responses_append [simp]: "responses (xs @ ys) = responses xs @ responses ys"
  by (induction xs rule: responses.induct) auto

lemma conn_of_update_conn:
  assumes "\<And>c. cid (g c) = cid c"
  shows "conn_of (update_conn i g h) x =
         map_option (\<lambda>c. if cid c = i then g c else c) (conn_of h x)"
  unfolding conn_of_def update_conn_def
  using find_map_update [of cid g x "\<lambda>c. cid c = i" "connections h"] assms by simp

lemma update_conn_twice:
  assumes "\<And>c. cid (g c) = cid c"
  shows "update_conn i f (update_conn i g h) = update_conn i (\<lambda>c. f (g c)) h"
  using assms by (simp add: update_conn_def)


lemma input_complete_keep:
  assumes "http sp = Some h" "conn_of h i = Some c" "connection c = Some t"
    and "frame env (buffer t) = Inr (Complete msg rest)" and "\<not> close_requested msg"
  shows "sipe_http_transport_input env now pending i sp =
     Inr (sp\<lparr>http := Some (set_buffer i rest h),
             calls := calls sp @ Request_response i msg # (if pending then [Request_next i] else [])\<rparr>)"
  using assms by (simp add: sipe_http_transport_input_def close_requested_def Let_def)

lemma input_complete_close:
  assumes "http sp = Some h" "conn_of h i = Some c" "connection c = Some t"
    and "frame env (buffer t) = Inr (Complete msg rest)" and "close_requested msg"
  shows "sipe_http_transport_input env now pending i sp =
     (let sp2 = sp\<lparr>http := Some (update_conn i closed_connection h),
                     calls := calls sp @ [Request_response i msg, Backend_disconnect (sock t)]\<rparr>
      in if pending then map_sum id snd (sipe_http_transport_new (host c) (port c) now sp2)
         else Inr sp2)"
proof -
  have "update_conn i (\<lambda>c. c\<lparr>connection := None, connected := False\<rparr>) (set_buffer i rest h) =
      update_conn i closed_connection h"
    unfolding set_buffer_def
    by (subst update_conn_twice) (simp_all add: closed_connection_def [abs_def])
  then show ?thesis
    using assms by (simp add: sipe_http_transport_input_def close_requested_def Let_def)
qed

lemma closed_state:
  assumes wf: "wf sp" and h: "http sp = Some h" and c: "conn_of h i = Some c"
  defines "h2 \<equiv> update_conn i closed_connection h"
  shows "wf_http (fresh sp) h2" "conn_of h2 i = Some (closed_connection c)"
    "g_hash_table_lookup (connections h2) (key_of (host c) (port c)) = Some (closed_connection c)"
proof -
  have g: "\<And>c. cid (closed_connection c) = cid c"
    "\<And>c. host_port (closed_connection c) = host_port c"
    "\<And>c. host (closed_connection c) = host c" "\<And>c. port (closed_connection c) = port c"
    by (simp_all add: closed_connection_def)
  have wfh: "wf_http (fresh sp) h" using wf h by (simp add: wf_def)
  show "wf_http (fresh sp) h2" unfolding h2_def by (rule wf_http_update_conn [OF wfh g])
  have ci: "c \<in> set (connections h)" "cid c = i"
    using c find_by_Some [of cid i "connections h" c] by (simp_all add: conn_of_def)
  show "conn_of h2 i = Some (closed_connection c)"
    unfolding h2_def using c ci(2) by (simp add: conn_of_update_conn [OF g(1)])
  have key: "host_port c = key_of (host c) (port c)"
    using wfh ci(1) by (simp add: wf_http_def list_all_iff)
  have "g_hash_table_lookup (connections h) (host_port c) = Some c"
    unfolding g_hash_table_lookup_def using wfh ci(1)
    by (intro find_by_distinct) (simp_all add: wf_http_def)
  then show "g_hash_table_lookup (connections h2) (key_of (host c) (port c)) =
      Some (closed_connection c)"
    unfolding h2_def using ci(2) by (simp add: lookup_update_conn [OF g(2)] key [symmetric])
qed

lemma input_close_pending:
  assumes wf: "wf sp" and h: "http sp = Some h" and c: "conn_of h i = Some c"
    and t: "connection c = Some t"
    and fr: "frame env (buffer t) = Inr (Complete msg rest)" and cl: "close_requested msg"
  shows "\<exists>sp3 h3 c3. sipe_http_transport_input env now True i sp = Inr sp3 \<and> wf sp3 \<and>
           http sp3 = Some h3 \<and> conn_of h3 i = Some c3 \<and>
           connection c3 = Some \<lparr>sock = fresh sp, buffer = []\<rparr> \<and> connected c3 = False \<and>
           timeout c3 = now + SIPE_HTTP_DEFAULT_TIMEOUT \<and>
           calls sp3 = calls sp @ [Request_response i msg, Backend_disconnect (sock t),
                                   Backend_connect i (g_ascii_strdown (host c)) (port c) (fresh sp)]"
proof -
  define h2 where "h2 = update_conn i closed_connection h"
  define sp2 where "sp2 = sp\<lparr>http := Some h2,
      calls := calls sp @ [Request_response i msg, Backend_disconnect (sock t)]\<rparr>"
  define c2 where "c2 = closed_connection c"
  have cs: "wf_http (fresh sp) h2" "conn_of h2 i = Some c2"
    "g_hash_table_lookup (connections h2) (key_of (host c) (port c)) = Some c2"
    using closed_state [OF wf h c] by (simp_all add: h2_def c2_def)
  have wf2: "wf sp2" using cs(1) by (simp add: wf_def sp2_def)
  have h2: "http sp2 = Some h2" by (simp add: sp2_def)
  have c2: "cid c2 = i" "connection c2 = None"
    using c find_by_Some [of cid i "connections h" c]
    by (simp_all add: c2_def closed_connection_def conn_of_def)
  obtain sp3 h3 where r: "sipe_http_transport_new (host c) (port c) now sp2 = Inr (cid c2, sp3)"
    "wf sp3" "http sp3 = Some h3"
    "connections h3 = connections (update_conn (cid c2) (fresh_connection (fresh sp2) now) h2)"
    "calls sp3 = calls sp2 @
       [Backend_connect (cid c2) (g_ascii_strdown (host c)) (port c) (fresh sp2)]"
    using new_reconnect [OF wf2 h2 cs(3) c2(2), of now] by blast
  have inp: "sipe_http_transport_input env now True i sp = Inr sp3"
    using input_complete_close [OF h c t fr cl, of now True] r(1)
    by (simp add: sp2_def h2_def Let_def)
  have g: "\<And>s c. cid (fresh_connection s now c) = cid c" by (simp add: fresh_connection_def)
  have "conn_of h3 i = conn_of (update_conn i (fresh_connection (fresh sp) now) h2) i"
    using r(4) c2(1) by (simp add: conn_of_def sp2_def)
  then have c3: "conn_of h3 i = Some (fresh_connection (fresh sp) now c2)"
    using cs(2) c2(1) by (simp add: conn_of_update_conn [OF g])
  show ?thesis
    using inp r(2,3,5) c3 c2(1)
    by (intro exI [of _ sp3] exI [of _ h3] exI [of _ "fresh_connection (fresh sp) now c2"])
       (simp add: fresh_connection_def sp2_def)
qed

lemma conn_of_set_buffer:
  assumes "conn_of h i = Some c" "connection c = Some t"
  shows "conn_of (set_buffer i b h) i = Some (c\<lparr>connection := Some (t\<lparr>buffer := b\<rparr>)\<rparr>)"
proof -
  have "cid c = i" using assms(1) find_by_Some [of cid i "connections h" c] by (simp add: conn_of_def)
  then show ?thesis
    unfolding set_buffer_def using assms by (subst conn_of_update_conn) simp_all
qed

text \<open>
  C6. On a complete response for a live entry of a well-formed state: when the response
  carries \<open>Connection: close\<close> (compared without regard to case) the handler delivers
  the response, disconnects the backend connection, sets the entry's connection to NULL
  and \<open>connected\<close> to FALSE, and then calls \<^verbatim>\<open>sipe_http_transport_new\<close> for the entry's
  host and port if and only if a request is pending; that call reconnects the same
  entry. Without the directive the connection stays, the buffer keeps the unread rest,
  and \<^verbatim>\<open>sipe_http_request_next\<close> is called exactly when a request is pending.
\<close>

theorem close_directive_handling:
  assumes wf: "wf sp" and h: "http sp = Some h" and c: "conn_of h i = Some c"
    and t: "connection c = Some t"
    and fr: "frame env (buffer t) = Inr (Complete msg rest)"
  shows
   "(close_requested msg \<longrightarrow>
       (\<exists>sp2 h2 c2. http sp2 = Some h2 \<and> conn_of h2 i = Some c2 \<and>
          connection c2 = None \<and> \<not> connected c2 \<and>
          calls sp2 = calls sp @ [Request_response i msg, Backend_disconnect (sock t)] \<and>
          sipe_http_transport_input env now pending i sp =
            (if pending then map_sum id snd (sipe_http_transport_new (host c) (port c) now sp2)
             else Inr sp2))) \<and>
    (close_requested msg \<and> pending \<longrightarrow>
       (\<exists>sp3 h3 c3. sipe_http_transport_input env now pending i sp = Inr sp3 \<and>
          http sp3 = Some h3 \<and> conn_of h3 i = Some c3 \<and>
          connection c3 = Some \<lparr>sock = fresh sp, buffer = []\<rparr> \<and> \<not> connected c3 \<and>
          calls sp3 = calls sp @ [Request_response i msg, Backend_disconnect (sock t),
             Backend_connect i (g_ascii_strdown (host c)) (port c) (fresh sp)])) \<and>
    (\<not> close_requested msg \<longrightarrow>
       (\<exists>sp2 h2 c2. sipe_http_transport_input env now pending i sp = Inr sp2 \<and>
          http sp2 = Some h2 \<and> conn_of h2 i = Some c2 \<and>
          connection c2 = Some (t\<lparr>buffer := rest\<rparr>) \<and> connected c2 = connected c \<and>
          calls sp2 = calls sp @ Request_response i msg # (if pending then [Request_next i] else [])))"
proof (intro conjI impI)
  assume cl: "close_requested msg"
  define sp2 where "sp2 = sp\<lparr>http := Some (update_conn i closed_connection h),
      calls := calls sp @ [Request_response i msg, Backend_disconnect (sock t)]\<rparr>"
  have "conn_of (update_conn i closed_connection h) i = Some (closed_connection c)"
    using closed_state(2) [OF wf h c] .
  moreover have "sipe_http_transport_input env now pending i sp =
      (if pending then map_sum id snd (sipe_http_transport_new (host c) (port c) now sp2)
       else Inr sp2)"
    using input_complete_close [OF h c t fr cl, of now pending] by (simp add: sp2_def Let_def)
  ultimately show "\<exists>sp2 h2 c2. http sp2 = Some h2 \<and> conn_of h2 i = Some c2 \<and>
          connection c2 = None \<and> \<not> connected c2 \<and>
          calls sp2 = calls sp @ [Request_response i msg, Backend_disconnect (sock t)] \<and>
          sipe_http_transport_input env now pending i sp =
            (if pending then map_sum id snd (sipe_http_transport_new (host c) (port c) now sp2)
             else Inr sp2)"
    by (intro exI [of _ sp2] exI [of _ "update_conn i closed_connection h"]
          exI [of _ "closed_connection c"])
       (simp add: sp2_def closed_connection_def)
next
  assume "close_requested msg \<and> pending"
  then have cl: "close_requested msg" and p: "pending = True" by simp_all
  show "\<exists>sp3 h3 c3. sipe_http_transport_input env now pending i sp = Inr sp3 \<and>
          http sp3 = Some h3 \<and> conn_of h3 i = Some c3 \<and>
          connection c3 = Some \<lparr>sock = fresh sp, buffer = []\<rparr> \<and> \<not> connected c3 \<and>
          calls sp3 = calls sp @ [Request_response i msg, Backend_disconnect (sock t),
             Backend_connect i (g_ascii_strdown (host c)) (port c) (fresh sp)]"
    using input_close_pending [OF wf h c t fr cl, of now] unfolding p by blast
next
  assume ncl: "\<not> close_requested msg"
  define sp2 where "sp2 = sp\<lparr>http := Some (set_buffer i rest h),
      calls := calls sp @ Request_response i msg # (if pending then [Request_next i] else [])\<rparr>"
  have "sipe_http_transport_input env now pending i sp = Inr sp2"
    using input_complete_keep [OF h c t fr ncl, of now pending] by (simp add: sp2_def)
  then show "\<exists>sp2 h2 c2. sipe_http_transport_input env now pending i sp = Inr sp2 \<and>
          http sp2 = Some h2 \<and> conn_of h2 i = Some c2 \<and>
          connection c2 = Some (t\<lparr>buffer := rest\<rparr>) \<and> connected c2 = connected c \<and>
          calls sp2 = calls sp @ Request_response i msg # (if pending then [Request_next i] else [])"
    using conn_of_set_buffer [OF c t, of rest]
    by (intro exI [of _ sp2] exI [of _ "set_buffer i rest h"]
          exI [of _ "c\<lparr>connection := Some (t\<lparr>buffer := rest\<rparr>)\<rparr>"])
       (simp add: sp2_def)
qed

theorem close_directive_handling_witness:
  "wf (backend_read 0 close_response after_a) \<and>
   (\<exists>h c t m. http (backend_read 0 close_response after_a) = Some h \<and> conn_of h 0 = Some c \<and>
      connection c = Some t \<and> frame example_env (buffer t) = Inr (Complete m []) \<and>
      close_requested m) \<and>
   (\<exists>sp3 h3 c3 m. sipe_http_transport_input example_env 30 True 0
        (backend_read 0 close_response after_a) = Inr sp3 \<and>
      http sp3 = Some h3 \<and> conn_of h3 0 = Some c3 \<and>
      connection c3 = Some \<lparr>sock = 2, buffer = []\<rparr> \<and>
      calls sp3 = [Backend_connect 0 ''a'' 443 1, Request_response 0 m, Backend_disconnect 1,
                   Backend_connect 0 ''a'' 443 2]) \<and>
   (\<exists>sp2 h2 c2 m. sipe_http_transport_input example_env 30 False 0
        (backend_read 0 close_response after_a) = Inr sp2 \<and>
      http sp2 = Some h2 \<and> conn_of h2 0 = Some c2 \<and> connection c2 = None \<and>
      calls sp2 = [Backend_connect 0 ''a'' 443 1, Request_response 0 m, Backend_disconnect 1]) \<and>
   (\<exists>sp2 m. sipe_http_transport_input example_env 30 True 0
        (backend_read 0 second_response after_a) = Inr sp2 \<and>
      calls sp2 = [Backend_connect 0 ''a'' 443 1, Request_response 0 m, Request_next 0])"
  using close_directive_handling
    [of "backend_read 0 close_response after_a"
        "the (http (backend_read 0 close_response after_a))" 0
        "the (conn_of (the (http (backend_read 0 close_response after_a))) 0)"
        "\<lparr>sock = 1, buffer = close_response\<rparr>" example_env
        "\<lparr>bodylen = 0, headers = [(''Connection'', ''close'')], body = Some []\<rparr>" "[]" 30 True]
    close_directive_handling
    [of "backend_read 0 second_response after_a"
        "the (http (backend_read 0 second_response after_a))" 0
        "the (conn_of (the (http (backend_read 0 second_response after_a))) 0)"
        "\<lparr>sock = 1, buffer = second_response\<rparr>" example_env
        "\<lparr>bodylen = 0, headers = [], body = Some []\<rparr>" "[]" 30 True]
  by (simp add: example_eval2 state_eval frame_eval)




section \<open>Shutdown\<close>

text \<open>
  C10. \<^verbatim>\<open>sipe_http_free\<close> is total and idempotent: on a transport that was never
  initialised (\<open>http\<close> is NULL) it changes nothing, after it the \<open>http\<close> field is NULL,
  and calling it twice in a row is the same as calling it once.
\<close>

theorem sipe_http_free_idempotent:
  "sipe_http_free (sipe_http_free sp) = sipe_http_free sp \<and>
   http (sipe_http_free sp) = None \<and>
   (http sp = None \<longrightarrow> sipe_http_free sp = sp)"
  by (cases "http sp") (simp_all add: sipe_http_free_def)

theorem sipe_http_free_idempotent_witness:
  "http sp_init = None \<and> sipe_http_free sp_init = sp_init \<and>
   sipe_http_free (sipe_http_free sp_init) = sipe_http_free sp_init"
  using sipe_http_free_idempotent [of sp_init] by (simp add: sp_init_def)

section \<open>The tracked next wake time\<close>

text \<open>
  C8. The claim is that after every operation \<open>next_timeout\<close> is the deadline of the
  head of the queue, and 0 exactly when the queue is empty. The error callback removes
  the entry from the queue and leaves both \<open>next_timeout\<close> and the armed timer as they
  were: after a connection to \<open>a:443\<close> at time 0 and an error on it, the queue is empty,
  \<open>next_timeout\<close> is 60, the timer is still armed with the freed entry as its payload,
  and when it fires the timeout handler reads through the freed pointer.
\<close>

theorem next_timeout_stale_after_error:
  "\<exists>sp1 sp2 h.
     sipe_http_transport_new ''a'' 443 0 sp_init = Inr (0, sp1) \<and>
     sipe_http_transport_error 0 sp1 = Inr sp2 \<and>
     http sp2 = Some h \<and> timeouts h = [] \<and> next_timeout h = 60 \<and>
     schedule sp2 = Some (0, 60) \<and>
     timer_fire 60 sp2 = Inl Use_after_free"
  by (simp add: state_eval)

end
